theory Spec2Isabelle
  imports Complex_Main
begin

section \<open>Numbers, errors and the source of randomness\<close>

text \<open>
  A JavaScript number is modelled as a real: the weights, biases, distances and positions of
  the game are finite numbers (they come from \<^verbatim>\<open>Math.random()\<close>, from sums and from
  \<^verbatim>\<open>Math.max\<close>), so rounding and the infinities are left out. \<open>NaN\<close> is kept where the code
  itself can produce it: reading an array past its end gives \<^verbatim>\<open>undefined\<close>, and arithmetic on
  \<^verbatim>\<open>undefined\<close> gives \<open>NaN\<close>. Values that flow through \<^verbatim>\<open>activate\<close> and \<^verbatim>\<open>predict\<close> are
  therefore of type \<open>jsnum\<close>.
\<close>

datatype jsnum = NaN | Num real

text \<open>\<^verbatim>\<open>w * e\<close> for a weight \<open>w\<close> and an entry \<open>e\<close>, and \<^verbatim>\<open>a + b\<close>.\<close>

fun jmul :: "real \<Rightarrow> jsnum \<Rightarrow> jsnum" where
  "jmul w NaN = NaN"
| "jmul w (Num e) = Num (w * e)"

fun jadd :: "jsnum \<Rightarrow> jsnum \<Rightarrow> jsnum" where
  "jadd (Num a) (Num b) = Num (a + b)"
| "jadd a b = NaN"

text \<open>
  \<^verbatim>\<open>arr[i]\<close> used as a number: the element, or \<^verbatim>\<open>undefined\<close> past the end, which
  arithmetic turns into \<open>NaN\<close>.
\<close>

definition entry :: "jsnum list \<Rightarrow> nat \<Rightarrow> jsnum" where
  "entry arr i = (if i < length arr then arr ! i else NaN)"

text \<open>
  The exceptions of the code. \<open>ConfigError\<close> stands for the two \<^verbatim>\<open>throw new Error\<close> of
  \<^verbatim>\<open>createLayers\<close>, \<open>ShapeError\<close> for the \<^verbatim>\<open>throw new Error\<close> of \<^verbatim>\<open>predict\<close>, and
  \<open>TypeError\<close> for the runtime's own error on reading a property of \<^verbatim>\<open>undefined\<close> or on
  calling something that is not a function.
\<close>

datatype error = ConfigError | ShapeError | TypeError

text \<open>
  \<^verbatim>\<open>Math.random()\<close> is an input of the model: \<open>rnd k\<close> is the value of the \<open>k\<close>-th call, and
  every function that draws takes the number of calls made so far and returns the new count.
  The constant below is an example source (0, 1/4, 1/2, 3/4, 0, ...), used to run the model on
  concrete inputs.
\<close>

type_synonym random = "nat \<Rightarrow> real"

definition rnd_example :: random where
  "rnd_example k = real (k mod 4) / 4"

section \<open>Constants\<close>

definition BOX_INIT_VELOCITY :: real where
  "BOX_INIT_VELOCITY = 0.15"

definition MUTATION_MULT :: real where
  "MUTATION_MULT = 0.1"

section \<open>Activation functions\<close>

definition sigmoid :: "real \<Rightarrow> real" where
  "sigmoid x = 1 / (1 + exp (- x))"

definition linear :: "real \<Rightarrow> real" where
  "linear x = x"

definition tanh_f :: "real \<Rightarrow> real" where
  "tanh_f x = tanh x"

definition relu :: "real \<Rightarrow> real" where
  "relu x = max 0 x"

definition leakyRelu :: "real \<Rightarrow> real \<Rightarrow> real" where
  "leakyRelu x alpha = max (alpha * x) x"

text \<open>
  The registry \<^verbatim>\<open>NeuralActivationFunc\<close>: its six own keys. The lookup of the code also finds
  the names every object inherits (\<^verbatim>\<open>toString\<close>, \<^verbatim>\<open>constructor\<close>, ...), and
  \<^verbatim>\<open>createLayers\<close> accepts them; the model answers \<open>None\<close> for them, and no statement below
  is about a configuration with such a name.
\<close>

datatype ActivationFunc = SIGMOID | RELU | LEAKY_RELU | LINEAR | TANH | SOFTMAX

definition NeuralActivationFunc :: "string \<Rightarrow> ActivationFunc option" where
  "NeuralActivationFunc funcName =
     (if funcName = ''SIGMOID'' then Some SIGMOID
      else if funcName = ''RELU'' then Some RELU
      else if funcName = ''LEAKY_RELU'' then Some LEAKY_RELU
      else if funcName = ''LINEAR'' then Some LINEAR
      else if funcName = ''TANH'' then Some TANH
      else if funcName = ''SOFTMAX'' then Some SOFTMAX
      else None)"

text \<open>
  \<^verbatim>\<open>this.activationFunc(result)\<close>. The five scalar functions return \<open>NaN\<close> on \<open>NaN\<close>;
  \<^verbatim>\<open>leakyRelu\<close> is called with one argument, so \<^verbatim>\<open>alpha\<close> is its default 0.01; \<^verbatim>\<open>softmax\<close>
  calls \<^verbatim>\<open>arr.map\<close> on its argument, which is a number here, and the runtime throws.
\<close>

fun call_activation :: "ActivationFunc \<Rightarrow> jsnum \<Rightarrow> error + jsnum" where
  "call_activation SOFTMAX r = Inl TypeError"
| "call_activation f NaN = Inr NaN"
| "call_activation SIGMOID (Num x) = Inr (Num (sigmoid x))"
| "call_activation RELU (Num x) = Inr (Num (relu x))"
| "call_activation LEAKY_RELU (Num x) = Inr (Num (leakyRelu x 0.01))"
| "call_activation LINEAR (Num x) = Inr (Num (linear x))"
| "call_activation TANH (Num x) = Inr (Num (tanh_f x))"

section \<open>Neuron\<close>

record Neuron =
  weights :: "real list"
  bias :: real
  activationFunc :: ActivationFunc

text \<open>The loop of \<^verbatim>\<open>activate\<close>: \<open>i\<close> runs over the indices of the weights.\<close>

fun weighted_sum :: "real list \<Rightarrow> jsnum list \<Rightarrow> nat \<Rightarrow> jsnum \<Rightarrow> jsnum" where
  "weighted_sum [] entries i result = result"
| "weighted_sum (w # ws) entries i result =
     weighted_sum ws entries (Suc i) (jadd result (jmul w (entry entries i)))"

definition activate :: "Neuron \<Rightarrow> jsnum list \<Rightarrow> error + jsnum" where
  "activate neuron entries =
     call_activation (activationFunc neuron)
       (jadd (weighted_sum (weights neuron) entries 0 (Num 0)) (Num (bias neuron)))"

text \<open>\<open>weightsSize\<close> calls of \<^verbatim>\<open>Math.random()\<close>, starting with call number \<open>p\<close>.\<close>

fun random_weights :: "random \<Rightarrow> nat \<Rightarrow> nat \<Rightarrow> real list" where
  "random_weights rnd p 0 = []"
| "random_weights rnd p (Suc k) = rnd p # random_weights rnd (Suc p) k"

definition Neuron_create :: "random \<Rightarrow> nat \<Rightarrow> nat \<Rightarrow> ActivationFunc \<Rightarrow> Neuron \<times> nat" where
  "Neuron_create rnd p weightsSize f =
     (\<lparr>weights = random_weights rnd p weightsSize,
       bias = rnd (p + weightsSize),
       activationFunc = f\<rparr>,
      Suc (p + weightsSize))"

text \<open>
  \<^verbatim>\<open>createMutation(weight, mut)\<close>; \<open>r\<close> is the value its \<^verbatim>\<open>Math.random()\<close> returns. The sum
  and the difference are exact here. The code's are rounded to the nearest double, so a
  magnitude below half the spacing of the doubles around \<open>weight\<close> leaves it as it is
  (\<^verbatim>\<open>1 + 1e-17\<close> is \<^verbatim>\<open>1\<close>); rounding keeps the order of the values, and only statements that
  rest on the order alone carry over to the code.
\<close>

definition createMutation :: "real \<Rightarrow> real \<Rightarrow> real \<Rightarrow> real" where
  "createMutation weight mut r =
     (let result = (if r \<ge> 0.5 then weight + mut else weight - mut)
      in max 0.01 result)"

section \<open>Layer and network\<close>

record NeuralLayer =
  neurons :: "Neuron list"
  isOutputLayer :: bool

definition layer_size :: "NeuralLayer \<Rightarrow> nat" where
  "layer_size l = length (neurons l)"

fun create_neurons :: "random \<Rightarrow> nat \<Rightarrow> nat \<Rightarrow> nat \<Rightarrow> ActivationFunc \<Rightarrow> Neuron list \<times> nat" where
  "create_neurons rnd p 0 weightsSize f = ([], p)"
| "create_neurons rnd p (Suc k) weightsSize f =
     (case Neuron_create rnd p weightsSize f of
        (n, p1) \<Rightarrow> (case create_neurons rnd p1 k weightsSize f of
                      (ns, p2) \<Rightarrow> (n # ns, p2)))"

definition NeuralLayer_create ::
  "random \<Rightarrow> nat \<Rightarrow> nat \<Rightarrow> nat \<Rightarrow> bool \<Rightarrow> ActivationFunc \<Rightarrow> NeuralLayer \<times> nat" where
  "NeuralLayer_create rnd p sz weightsSize isOut f =
     (case create_neurons rnd p sz weightsSize f of
        (ns, p1) \<Rightarrow> (\<lparr>neurons = ns, isOutputLayer = isOut\<rparr>, p1))"

record NeuralNetwork =
  layers :: "NeuralLayer list"

record LayerConfig =
  size_cfg :: nat
  funcName :: string

text \<open>
  The loop of \<^verbatim>\<open>createLayers\<close>: \<open>i\<close> is the index of the descriptor at the head of the
  remaining list, \<open>acc\<close> the layers pushed so far.
\<close>

fun createLayers_loop ::
  "random \<Rightarrow> LayerConfig list \<Rightarrow> nat \<Rightarrow> LayerConfig list \<Rightarrow> NeuralLayer list \<Rightarrow> nat
     \<Rightarrow> error + (NeuralLayer list \<times> nat)" where
  "createLayers_loop rnd layersConfig i [] acc p = Inr (acc, p)"
| "createLayers_loop rnd layersConfig i (c # cs) acc p =
     (case NeuralActivationFunc (funcName c) of
        None \<Rightarrow> Inl ConfigError
      | Some func \<Rightarrow>
          (case (if i = 0 then NeuralLayer_create rnd p (size_cfg c) 1 False func
                 else NeuralLayer_create rnd p (size_cfg c) (size_cfg (layersConfig ! (i - 1)))
                        (i = length layersConfig - 1) func) of
             (l, p1) \<Rightarrow> createLayers_loop rnd layersConfig (Suc i) cs (acc @ [l]) p1))"

definition createLayers :: "random \<Rightarrow> nat \<Rightarrow> LayerConfig list \<Rightarrow> error + (NeuralNetwork \<times> nat)" where
  "createLayers rnd p layersConfig =
     (if layersConfig = [] then Inl ConfigError
      else (case createLayers_loop rnd layersConfig 0 layersConfig [] p of
              Inl e \<Rightarrow> Inl e
            | Inr (ls, p1) \<Rightarrow> Inr (\<lparr>layers = ls\<rparr>, p1)))"

text \<open>
  \<^verbatim>\<open>predict\<close>. The first loop gives neuron \<open>neuronIndex\<close> of the first layer the array
  \<^verbatim>\<open>[values[neuronIndex]]\<close>; \<open>layerInput\<close> collects the results.
\<close>

fun predict_first :: "Neuron list \<Rightarrow> jsnum list \<Rightarrow> nat \<Rightarrow> jsnum list \<Rightarrow> error + jsnum list" where
  "predict_first [] vals neuronIndex layerInput = Inr layerInput"
| "predict_first (neuron # rest) vals neuronIndex layerInput =
     (case activate neuron [entry vals neuronIndex] of
        Inl e \<Rightarrow> Inl e
      | Inr y \<Rightarrow> predict_first rest vals (Suc neuronIndex) (layerInput @ [y]))"

text \<open>The inner loop of the other layers: every neuron reads \<open>layerInput\<close>; \<open>temp\<close> collects.\<close>

fun predict_neurons :: "Neuron list \<Rightarrow> jsnum list \<Rightarrow> jsnum list \<Rightarrow> error + jsnum list" where
  "predict_neurons [] layerInput temp = Inr temp"
| "predict_neurons (neuron # rest) layerInput temp =
     (case activate neuron layerInput of
        Inl e \<Rightarrow> Inl e
      | Inr y \<Rightarrow> predict_neurons rest layerInput (temp @ [y]))"

text \<open>The outer loop over the layers after the first.\<close>

fun predict_layers :: "NeuralLayer list \<Rightarrow> jsnum list \<Rightarrow> error + jsnum list" where
  "predict_layers [] layerInput = Inr layerInput"
| "predict_layers (layer # rest) layerInput =
     (case predict_neurons (neurons layer) layerInput [] of
        Inl e \<Rightarrow> Inl e
      | Inr temp \<Rightarrow> predict_layers rest temp)"

text \<open>
  With no layer at all \<^verbatim>\<open>this.layers[0]\<close> is \<^verbatim>\<open>undefined\<close> and reading its \<^verbatim>\<open>size\<close>
  throws.
\<close>

definition predict :: "NeuralNetwork \<Rightarrow> jsnum list \<Rightarrow> error + jsnum list" where
  "predict net vals =
     (case layers net of
        [] \<Rightarrow> Inl TypeError
      | firstLayer # others \<Rightarrow>
          if length vals \<noteq> layer_size firstLayer then Inl ShapeError
          else (case predict_first (neurons firstLayer) vals 0 [] of
                  Inl e \<Rightarrow> Inl e
                | Inr layerInput \<Rightarrow> predict_layers others layerInput))"

section \<open>The forward pass as the specification words it\<close>

text \<open>
  The specification describes \<^verbatim>\<open>predict\<close> through a per-layer operation \<open>forward\<close>: the first
  layer gives neuron \<open>i\<close> the one-element slice \<open>[inputVector[i]]\<close>, every later layer gives each
  of its neurons the whole input vector, and the output vector lists the results in neuron
  order. These definitions follow those words; \<open>predict\<close> above follows the code. A failing
  neuron makes the whole operation fail with that neuron's error.
\<close>

fun collect_results :: "(error + 'a) list \<Rightarrow> error + 'a list" where
  "collect_results [] = Inr []"
| "collect_results (Inl e # rs) = Inl e"
| "collect_results (Inr y # rs) = (case collect_results rs of Inl e \<Rightarrow> Inl e | Inr ys \<Rightarrow> Inr (y # ys))"

definition forward_first :: "NeuralLayer \<Rightarrow> jsnum list \<Rightarrow> error + jsnum list" where
  "forward_first l inputVector =
     collect_results (map (\<lambda>i. activate (neurons l ! i) [inputVector ! i]) [0..<layer_size l])"

definition forward :: "NeuralLayer \<Rightarrow> jsnum list \<Rightarrow> error + jsnum list" where
  "forward l inputVector = collect_results (map (\<lambda>n. activate n inputVector) (neurons l))"

definition propagate :: "NeuralLayer list \<Rightarrow> error + jsnum list \<Rightarrow> error + jsnum list" where
  "propagate ls r =
     foldl (\<lambda>acc l. case acc of Inl e \<Rightarrow> Inl e | Inr v \<Rightarrow> forward l v) r ls"

definition spec_predict :: "NeuralNetwork \<Rightarrow> jsnum list \<Rightarrow> error + jsnum list" where
  "spec_predict net inputVector =
     propagate (tl (layers net)) (forward_first (hd (layers net)) inputVector)"

text \<open>A network none of whose neurons carries \<^verbatim>\<open>softmax\<close>.\<close>

definition scalar_layer :: "NeuralLayer \<Rightarrow> bool" where
  "scalar_layer l = list_all (\<lambda>n. activationFunc n \<noteq> SOFTMAX) (neurons l)"

definition scalar_net :: "NeuralNetwork \<Rightarrow> bool" where
  "scalar_net net = list_all scalar_layer (layers net)"

text \<open>The activation names the specification lists as recognized.\<close>

definition recognized :: "string \<Rightarrow> bool" where
  "recognized name = (name \<in> set [''SIGMOID'', ''RELU'', ''LEAKY_RELU'', ''LINEAR'', ''TANH''])"

section \<open>Game objects\<close>

text \<open>
  Of each game object the fields that \<^verbatim>\<open>restartGame\<close> reads or writes, and the robot's
  \<open>distance\<close> (its fitness). A position is the pair \<open>(x, y)\<close>.
\<close>

record Platfom =
  platform_position :: "real \<times> real"

record Box =
  box_position :: "real \<times> real"
  box_velocity :: real
  naturalHeight :: real

record Robot =
  position :: "real \<times> real"
  frameHeight :: real
  isAlive :: bool
  nn :: NeuralNetwork
  distance :: real

text \<open>
  The game holds its robots under the keys \<^verbatim>\<open>robot_0\<close>, \<^verbatim>\<open>robot_1\<close>, ...: \<open>robots game ! k\<close> is
  the object under \<^verbatim>\<open>robot_k\<close>, and the index \<open>k\<close> stands for the reference to it.
  \<^verbatim>\<open>NUM_OF_ROBOTS\<close> is the length of the list.
\<close>

record Game =
  viewWidth :: real
  platform :: Platfom
  box :: Box
  robots :: "Robot list"
  pause :: bool

section \<open>Sorting\<close>

text \<open>
  \<^verbatim>\<open>Array.prototype.sort\<close> belongs to the language, not to the repository. The standard asks
  for a stable sort by the comparator (\<open>cmp a b > 0\<close> puts \<open>a\<close> after \<open>b\<close>); a stable
  insertion sort models it.
\<close>

fun sort_insert :: "('a \<Rightarrow> 'a \<Rightarrow> real) \<Rightarrow> 'a \<Rightarrow> 'a list \<Rightarrow> 'a list" where
  "sort_insert cmp a [] = [a]"
| "sort_insert cmp a (b # bs) = (if cmp a b > 0 then b # sort_insert cmp a bs else a # b # bs)"

fun array_sort :: "('a \<Rightarrow> 'a \<Rightarrow> real) \<Rightarrow> 'a list \<Rightarrow> 'a list" where
  "array_sort cmp [] = []"
| "array_sort cmp (a # as) = sort_insert cmp a (array_sort cmp as)"

text \<open>
  The array \<^verbatim>\<open>robots\<close> of \<^verbatim>\<open>restartGame\<close> after
  \<^verbatim>\<open>robots.sort((a, b) => b.distance - a.distance)\<close>, as a list of references.
\<close>

definition ranking :: "Robot list \<Rightarrow> nat list" where
  "ranking store =
     array_sort (\<lambda>a b. distance (store ! b) - distance (store ! a)) [0..<length store]"

section \<open>Reproduction\<close>

text \<open>\<^verbatim>\<open>bestNeuron.weights.map((w) => Math.random())\<close>\<close>

fun random_map :: "random \<Rightarrow> nat \<Rightarrow> real list \<Rightarrow> real list \<times> nat" where
  "random_map rnd p [] = ([], p)"
| "random_map rnd p (w # ws) =
     (case random_map rnd (Suc p) ws of (vs, p1) \<Rightarrow> (rnd p # vs, p1))"

text \<open>
  \<^verbatim>\<open>bestNeuron.weights.map((w) => Neuron.createMutation(w, Math.random() * MUTATION_MULT))\<close>:
  the magnitude is drawn first, then \<^verbatim>\<open>createMutation\<close> draws its choice.
\<close>

fun mutation_map :: "random \<Rightarrow> nat \<Rightarrow> real list \<Rightarrow> real list \<times> nat" where
  "mutation_map rnd p [] = ([], p)"
| "mutation_map rnd p (w # ws) =
     (case mutation_map rnd (p + 2) ws of
        (vs, p1) \<Rightarrow> (createMutation w (rnd p * MUTATION_MULT) (rnd (Suc p)) # vs, p1))"

text \<open>The body of the loop over the neurons, for the robot at rank \<open>i\<close> of \<open>len\<close> robots.\<close>

definition mutate_neuron :: "random \<Rightarrow> nat \<Rightarrow> nat \<Rightarrow> nat \<Rightarrow> Neuron \<Rightarrow> Neuron \<Rightarrow> Neuron \<times> nat" where
  "mutate_neuron rnd p i len neuron bestNeuron =
     (if real i \<ge> real len * 0.8 then
        (case random_map rnd p (weights bestNeuron) of
           (ws, p1) \<Rightarrow> (neuron\<lparr>weights := ws, bias := rnd p1\<rparr>, Suc p1))
      else
        (case mutation_map rnd p (weights bestNeuron) of
           (ws, p1) \<Rightarrow>
             (neuron\<lparr>weights := ws,
                     bias := createMutation (bias bestNeuron) (rnd p1 * MUTATION_MULT) (rnd (Suc p1))\<rparr>,
              p1 + 2)))"

text \<open>
  The loop over the neurons of a layer. When the best layer has no neuron \<open>n\<close>,
  \<^verbatim>\<open>bestNeuron\<close> is \<^verbatim>\<open>undefined\<close> and reading its weights throws.
\<close>

fun mutate_neurons ::
  "random \<Rightarrow> nat \<Rightarrow> nat \<Rightarrow> nat \<Rightarrow> Neuron list \<Rightarrow> Neuron list \<Rightarrow> error + (Neuron list \<times> nat)" where
  "mutate_neurons rnd p i len [] bestNeurons = Inr ([], p)"
| "mutate_neurons rnd p i len (neuron # ns) [] = Inl TypeError"
| "mutate_neurons rnd p i len (neuron # ns) (bestNeuron # bs) =
     (case mutate_neuron rnd p i len neuron bestNeuron of
        (neuron', p1) \<Rightarrow>
          (case mutate_neurons rnd p1 i len ns bs of
             Inl e \<Rightarrow> Inl e
           | Inr (ns', p2) \<Rightarrow> Inr (neuron' # ns', p2)))"

text \<open>
  The loop over the layers. When the best network has no layer \<open>l\<close>, \<^verbatim>\<open>bestLayer\<close> is
  \<^verbatim>\<open>undefined\<close>, and the loop over the neurons throws at its first neuron: the same as a best
  layer without neurons.
\<close>

fun mutate_layers ::
  "random \<Rightarrow> nat \<Rightarrow> nat \<Rightarrow> nat \<Rightarrow> NeuralLayer list \<Rightarrow> NeuralLayer list
     \<Rightarrow> error + (NeuralLayer list \<times> nat)" where
  "mutate_layers rnd p i len [] bestLayers = Inr ([], p)"
| "mutate_layers rnd p i len (layer # ls) bestLayers =
     (case mutate_neurons rnd p i len (neurons layer)
             (case bestLayers of [] \<Rightarrow> [] | bestLayer # _ \<Rightarrow> neurons bestLayer) of
        Inl e \<Rightarrow> Inl e
      | Inr (ns', p1) \<Rightarrow>
          (case mutate_layers rnd p1 i len ls (tl bestLayers) of
             Inl e \<Rightarrow> Inl e
           | Inr (ls', p2) \<Rightarrow> Inr (layer\<lparr>neurons := ns'\<rparr> # ls', p2)))"

text \<open>
  The loop \<^verbatim>\<open>for (let i = 1; i < robots.length; i++)\<close>: \<open>k # ks\<close> are the references
  \<^verbatim>\<open>robots[i]\<close>, \<^verbatim>\<open>robots[i + 1]\<close>, ..., \<open>best\<close> is the reference \<^verbatim>\<open>bestRobot\<close>, \<open>py\<close> is
  \<^verbatim>\<open>platform.position.y\<close>. The best network is read from the store in every round, as the
  code reads it through the reference \<^verbatim>\<open>bestNN\<close>.
\<close>

fun mutate_robots ::
  "random \<Rightarrow> nat \<Rightarrow> real \<Rightarrow> nat \<Rightarrow> nat \<Rightarrow> nat \<Rightarrow> nat list \<Rightarrow> Robot list
     \<Rightarrow> error + (Robot list \<times> nat)" where
  "mutate_robots rnd p py len best i [] store = Inr (store, p)"
| "mutate_robots rnd p py len best i (k # ks) store =
     (let robot = store ! k in
      case mutate_layers rnd p i len (layers (nn robot)) (layers (nn (store ! best))) of
        Inl e \<Rightarrow> Inl e
      | Inr (ls', p1) \<Rightarrow>
          mutate_robots rnd p1 py len best (Suc i) ks
            (store[k := robot\<lparr>position := (10, py - frameHeight robot),
                              isAlive := True,
                              nn := (nn robot)\<lparr>layers := ls'\<rparr>\<rparr>]))"

text \<open>
  \<^verbatim>\<open>restartGame\<close>. With no robot at all \<^verbatim>\<open>robots[0]\<close> is \<^verbatim>\<open>undefined\<close> and reading its
  \<^verbatim>\<open>nn\<close> throws.
\<close>

definition restartGame :: "random \<Rightarrow> nat \<Rightarrow> Game \<Rightarrow> error + (Game \<times> nat)" where
  "restartGame rnd p game =
     (let py = snd (platform_position (platform game));
          b = (box game)\<lparr>
                box_position :=
                  (viewWidth game + 100,
                   if rnd p \<ge> 0.5 then py - naturalHeight (box game) * 4
                   else py - naturalHeight (box game)),
                box_velocity := BOX_INIT_VELOCITY\<rparr>
      in case ranking (robots game) of
           [] \<Rightarrow> Inl TypeError
         | bestRobot # others \<Rightarrow>
             (case mutate_robots rnd (Suc p) py (length (robots game)) bestRobot 1 others
                     (robots game) of
                Inl e \<Rightarrow> Inl e
              | Inr (store, p1) \<Rightarrow>
                  Inr (game\<lparr>box := b,
                            robots := store[bestRobot :=
                              (store ! bestRobot)\<lparr>
                                 position := (10, py - frameHeight (store ! bestRobot)),
                                 isAlive := True\<rparr>],
                            pause := False\<rparr>,
                       p1)))"

section \<open>Notions used in the statements\<close>

text \<open>
  \<open>ranks_before store a b\<close>: robot \<open>a\<close> has the larger distance, or the same distance and the
  smaller index.
\<close>

definition ranks_before :: "Robot list \<Rightarrow> nat \<Rightarrow> nat \<Rightarrow> bool" where
  "ranks_before store a b =
     (distance (store ! a) > distance (store ! b) \<or>
      (distance (store ! a) = distance (store ! b) \<and> a < b))"

text \<open>Two networks of the same topology: the same number of neurons layer by layer.\<close>

definition same_shape :: "NeuralNetwork \<Rightarrow> NeuralNetwork \<Rightarrow> bool" where
  "same_shape a b = (map layer_size (layers a) = map layer_size (layers b))"

section \<open>Example inputs\<close>

text \<open>The configuration the game builds every robot's network from.\<close>

definition DEFAULT_NN_CONFIG :: "LayerConfig list" where
  "DEFAULT_NN_CONFIG =
     [\<lparr>size_cfg = 5, funcName = ''SIGMOID''\<rparr>,
      \<lparr>size_cfg = 10, funcName = ''SIGMOID''\<rparr>,
      \<lparr>size_cfg = 5, funcName = ''SIGMOID''\<rparr>,
      \<lparr>size_cfg = 2, funcName = ''SIGMOID''\<rparr>,
      \<lparr>size_cfg = 1, funcName = ''SIGMOID''\<rparr>]"

text \<open>
  A small configuration and the network \<^verbatim>\<open>createLayers\<close> builds from it when the calls of
  \<^verbatim>\<open>Math.random()\<close> return what \<open>rnd_example\<close> says.
\<close>

definition example_config :: "LayerConfig list" where
  "example_config =
     [\<lparr>size_cfg = 2, funcName = ''SIGMOID''\<rparr>, \<lparr>size_cfg = 1, funcName = ''RELU''\<rparr>]"

definition built_net :: NeuralNetwork where
  "built_net =
     \<lparr>layers =
        [\<lparr>neurons = [\<lparr>weights = [0], bias = 1 / 4, activationFunc = SIGMOID\<rparr>,
                     \<lparr>weights = [1 / 2], bias = 3 / 4, activationFunc = SIGMOID\<rparr>],
          isOutputLayer = False\<rparr>,
         \<lparr>neurons = [\<lparr>weights = [0, 1 / 4], bias = 1 / 2, activationFunc = RELU\<rparr>],
          isOutputLayer = True\<rparr>]\<rparr>"

definition example_neuron :: Neuron where
  "example_neuron = \<lparr>weights = [2, 3], bias = 1, activationFunc = LINEAR\<rparr>"

text \<open>A network of the shape \<open>[2, 1]\<close> with every weight and bias equal to \<open>w\<close>.\<close>

definition example_net :: "real \<Rightarrow> NeuralNetwork" where
  "example_net w =
     \<lparr>layers =
        [\<lparr>neurons = [\<lparr>weights = [w], bias = w, activationFunc = SIGMOID\<rparr>,
                     \<lparr>weights = [w], bias = w, activationFunc = SIGMOID\<rparr>],
          isOutputLayer = False\<rparr>,
         \<lparr>neurons = [\<lparr>weights = [w, w], bias = w, activationFunc = SIGMOID\<rparr>],
          isOutputLayer = True\<rparr>]\<rparr>"

definition example_robot :: "real \<Rightarrow> real \<Rightarrow> Robot" where
  "example_robot w d =
     \<lparr>position = (10, 300), frameHeight = 64, isAlive = False, nn = example_net w,
      distance = d\<rparr>"

text \<open>Five dead robots; robots 1 and 3 share the largest distance.\<close>

definition example_game :: Game where
  "example_game =
     \<lparr>viewWidth = 600,
      platform = \<lparr>platform_position = (0, 430)\<rparr>,
      box = \<lparr>box_position = (-32, 398), box_velocity = 0.75, naturalHeight = 32\<rparr>,
      robots = [example_robot 0.1 3, example_robot 0.2 7, example_robot 0.3 5,
                example_robot 0.4 7, example_robot 0.5 1],
      pause = True\<rparr>"

section \<open>The mutation operator\<close>

text \<open>
  C3: for every weight, every magnitude and either outcome of the random choice, the
  mutation operator returns a value of at least 0.01.
\<close>

theorem createMutation_floor: "createMutation weight mut r \<ge> 0.01"
  by (simp add: createMutation_def Let_def)

text \<open>
  C4, as stated, fails: a value of exactly 0.01 mutated downwards by any magnitude is clamped
  back to 0.01, the value it had.
\<close>

theorem createMutation_identity_cex:
  "0 < (0.005::real) \<and> createMutation 0.01 0.005 0 = 0.01"
  by (simp add: createMutation_def Let_def)

text \<open>
  C4, amended: for a magnitude above zero the result is \<open>value + magnitude\<close> or
  \<open>value - magnitude\<close>, clamped from below at 0.01. It need not differ from the original
  value: a value of exactly 0.01 comes back from the subtracting branch as 0.01. The adding
  branch never returns less than the value, the subtracting branch never returns more than
  the larger of 0.01 and the value, and a value below 0.01 always changes. (That a value above
  0.01 changes is true of the exact sum and difference only, and is not stated.)
\<close>

theorem createMutation_clamped:
  "0 < mut \<Longrightarrow>
     createMutation weight mut r =
       (if r \<ge> 0.5 then max 0.01 (weight + mut) else max 0.01 (weight - mut)) \<and>
     (r \<ge> 0.5 \<longrightarrow> weight \<le> createMutation weight mut r) \<and>
     (r < 0.5 \<longrightarrow> createMutation weight mut r \<le> max 0.01 weight) \<and>
     (weight = 0.01 \<and> r < 0.5 \<longrightarrow> createMutation weight mut r = weight) \<and>
     (weight < 0.01 \<longrightarrow> createMutation weight mut r \<noteq> weight)"
  by (auto simp: createMutation_def Let_def max_def)

theorem createMutation_clamped_witness:
  "0 < (0.005::real) \<and>
   createMutation 0.5 0.005 0.75 = 0.505 \<and> 0.5 \<le> createMutation 0.5 0.005 0.75 \<and>
   createMutation 0.5 0.005 0.25 = 0.495 \<and> createMutation 0.5 0.005 0.25 \<le> max 0.01 0.5 \<and>
   createMutation 0.01 0.005 0.25 = 0.01 \<and>
   createMutation 0.002 0.005 0.75 = 0.01 \<and> createMutation 0.002 0.005 0.75 \<noteq> 0.002"
  using createMutation_clamped [of "0.005" "0.5" "0.75"]
    createMutation_clamped [of "0.005" "0.5" "0.25"]
    createMutation_clamped [of "0.005" "0.01" "0.25"]
    createMutation_clamped [of "0.005" "0.002" "0.75"]
  by simp

section \<open>Activation of a neuron\<close>

lemma weighted_sum_NaN: "weighted_sum ws entries i NaN = NaN"
  by (induction ws arbitrary: i) simp_all

lemma weighted_sum_short:
  "ws \<noteq> [] \<Longrightarrow> length entries < i + length ws \<Longrightarrow> weighted_sum ws entries i result = NaN"
proof (induction ws arbitrary: i result)
  case Nil
  then show ?case by simp
next
  case (Cons w ws)
  show ?case
  proof (cases "i < length entries")
    case True
    with Cons.prems have "ws \<noteq> []" and "length entries < Suc i + length ws" by auto
    then show ?thesis using Cons.IH by simp
  next
    case False
    then show ?thesis by (simp add: entry_def weighted_sum_NaN)
  qed
qed

lemma weighted_sum_take:
  "i + length ws \<le> n \<Longrightarrow> weighted_sum ws (take n entries) i result = weighted_sum ws entries i result"
proof (induction ws arbitrary: i result)
  case Nil
  then show ?case by simp
next
  case (Cons w ws)
  then have "entry (take n entries) i = entry entries i"
    by (simp add: entry_def)
  with Cons show ?case by simp
qed

lemma call_activation_not_shape: "call_activation f r \<noteq> Inl ShapeError"
  by (cases f; cases r) simp_all

lemma activate_scalar:
  "activationFunc neuron \<noteq> SOFTMAX \<Longrightarrow> \<exists>y. activate neuron entries = Inr y"
  by (cases "activationFunc neuron";
      cases "jadd (weighted_sum (weights neuron) entries 0 (Num 0)) (Num (bias neuron))")
     (simp_all add: activate_def)

text \<open>
  C9, as stated, fails: \<open>activate\<close> has no check of the input length. A neuron with two
  weights given three inputs returns a number, computed from the first two.
\<close>

theorem activate_mismatch_returns:
  "length [Num 1, Num 1, Num 5] \<noteq> length (weights example_neuron) \<and>
   activate example_neuron [Num 1, Num 1, Num 5] = Inr (Num 6)"
  by (simp add: example_neuron_def activate_def entry_def linear_def)

text \<open>
  C9, amended: \<open>activate\<close> never fails with a shape error. With at least as many inputs as
  weights it returns what it returns on the first \<open>length (weights neuron)\<close> inputs, the others
  being ignored; with fewer inputs the weighted sum is \<open>NaN\<close> and the result is that of the
  activation function on \<open>NaN\<close>.
\<close>

theorem activate_no_shape_check:
  "activate neuron entries \<noteq> Inl ShapeError \<and>
   (length (weights neuron) \<le> length entries \<longrightarrow>
      activate neuron entries = activate neuron (take (length (weights neuron)) entries)) \<and>
   (length entries < length (weights neuron) \<longrightarrow>
      activate neuron entries = call_activation (activationFunc neuron) NaN)"
proof -
  have "weighted_sum (weights neuron) entries 0 (Num 0) = NaN"
    if "length entries < length (weights neuron)"
  proof -
    from that have "weights neuron \<noteq> []" by (cases "weights neuron") simp_all
    with that show ?thesis by (simp add: weighted_sum_short)
  qed
  then show ?thesis
    by (simp add: activate_def call_activation_not_shape weighted_sum_take)
qed

theorem activate_no_shape_check_witness:
  "length (weights example_neuron) \<le> length [Num 1, Num 1, Num 5] \<and>
   activate example_neuron [Num 1, Num 1, Num 5] = activate example_neuron [Num 1, Num 1] \<and>
   length [Num 1] < length (weights example_neuron) \<and>
   activate example_neuron [Num 1] = Inr NaN"
  using activate_no_shape_check [of example_neuron "[Num 1, Num 1, Num 5]"]
    activate_no_shape_check [of example_neuron "[Num 1]"]
  by (simp add: example_neuron_def)

section \<open>The forward pass\<close>

lemma predict_neurons_collect:
  "predict_neurons ns layerInput temp =
     (case collect_results (map (\<lambda>n. activate n layerInput) ns) of
        Inl e \<Rightarrow> Inl e
      | Inr ys \<Rightarrow> Inr (temp @ ys))"
proof (induction ns arbitrary: temp)
  case Nil
  show ?case by simp
next
  case (Cons n ns)
  show ?case
    by (cases "activate n layerInput") (simp_all add: Cons.IH split: sum.splits)
qed

lemma predict_first_collect:
  "predict_first ns vals i acc =
     (case collect_results (map (\<lambda>(j, n). activate n [entry vals j]) (enumerate i ns)) of
        Inl e \<Rightarrow> Inl e
      | Inr ys \<Rightarrow> Inr (acc @ ys))"
proof (induction ns arbitrary: i acc)
  case Nil
  show ?case by simp
next
  case (Cons n ns)
  show ?case
    by (cases "activate n [entry vals i]") (simp_all add: Cons.IH split: sum.splits)
qed

lemma enumerate_as_indices:
  "map (\<lambda>(j, n). f j n) (enumerate 0 ns) = map (\<lambda>j. f j (ns ! j)) [0..<length ns]"
  by (rule nth_equalityI) (simp_all add: nth_enumerate_eq)

lemma predict_first_forward:
  assumes "length vals = layer_size l"
  shows "predict_first (neurons l) vals 0 [] = forward_first l vals"
proof -
  have "map (\<lambda>(j, n). activate n [entry vals j]) (enumerate 0 (neurons l)) =
        map (\<lambda>j. activate (neurons l ! j) [entry vals j]) [0..<length (neurons l)]"
    by (rule enumerate_as_indices)
  also have "\<dots> = map (\<lambda>j. activate (neurons l ! j) [vals ! j]) [0..<length (neurons l)]"
    using assms by (simp add: entry_def layer_size_def)
  finally show ?thesis
    by (simp add: predict_first_collect forward_first_def layer_size_def split: sum.splits)
qed

lemma predict_layers_propagate:
  "predict_layers ls v = propagate ls (Inr v)"
proof (induction ls arbitrary: v)
  case Nil
  show ?case by (simp add: propagate_def)
next
  case (Cons l ls)
  have stuck: "propagate ks (Inl e) = Inl e" for ks e
    by (induction ks) (simp_all add: propagate_def)
  have step: "propagate (l # ls) (Inr v) = propagate ls (forward l v)"
    by (simp add: propagate_def)
  show ?case
    by (cases "forward l v")
       (simp_all add: step stuck Cons.IH predict_neurons_collect forward_def split: sum.splits)
qed

text \<open>
  C7: on a network with at least one layer and an input as long as the first layer,
  \<open>predict\<close> computes what the specification's layer-wise description computes: neuron \<open>i\<close> of
  the first layer reads the slice \<open>[input[i]]\<close>, every neuron of a later layer reads the whole
  output of the layer before, and the output of the last layer is returned.
\<close>

theorem predict_refines_forward:
  assumes "layers net \<noteq> []" and "length vals = layer_size (hd (layers net))"
  shows "predict net vals = spec_predict net vals"
proof -
  from assms(1) obtain l ls where ls: "layers net = l # ls"
    by (cases "layers net") auto
  have stuck: "propagate ks (Inl e) = Inl e" for ks e
    by (induction ks) (simp_all add: propagate_def)
  from assms(2) ls have len: "length vals = layer_size l" by simp
  show ?thesis
    by (cases "forward_first l vals")
       (simp_all add: predict_def spec_predict_def ls len predict_first_forward
          predict_layers_propagate stuck)
qed

theorem predict_refines_forward_witness:
  "layers built_net \<noteq> [] \<and> length [Num 1, Num 1] = layer_size (hd (layers built_net)) \<and>
   predict built_net [Num 1, Num 1] = spec_predict built_net [Num 1, Num 1]"
  using predict_refines_forward [of built_net "[Num 1, Num 1]"]
  by (simp add: built_net_def layer_size_def)

lemma collect_results_all_Inr:
  "list_all (\<lambda>r. \<exists>y. r = Inr y) rs \<Longrightarrow> \<exists>ys. collect_results rs = Inr ys \<and> length ys = length rs"
  by (induction rs) auto

lemma forward_scalar:
  assumes "scalar_layer l"
  shows "\<exists>out. forward l v = Inr out \<and> length out = layer_size l"
proof -
  have "list_all (\<lambda>r. \<exists>y. r = Inr y) (map (\<lambda>n. activate n v) (neurons l))"
    using assms by (auto simp: scalar_layer_def list_all_iff activate_scalar)
  from collect_results_all_Inr [OF this] show ?thesis
    by (simp add: forward_def layer_size_def)
qed

lemma forward_first_scalar:
  assumes "scalar_layer l"
  shows "\<exists>out. forward_first l v = Inr out \<and> length out = layer_size l"
proof -
  have "list_all (\<lambda>r. \<exists>y. r = Inr y)
          (map (\<lambda>i. activate (neurons l ! i) [v ! i]) [0..<layer_size l])"
    using assms by (auto simp: scalar_layer_def list_all_iff layer_size_def activate_scalar)
  from collect_results_all_Inr [OF this] show ?thesis
    by (simp add: forward_first_def)
qed

lemma predict_layers_scalar:
  "list_all scalar_layer ls \<Longrightarrow>
     \<exists>out. predict_layers ls v = Inr out \<and>
           length out = (if ls = [] then length v else layer_size (last ls))"
proof (induction ls arbitrary: v)
  case Nil
  show ?case by simp
next
  case (Cons l ls)
  from Cons.prems have "scalar_layer l" and rest: "list_all scalar_layer ls" by simp_all
  from forward_scalar [OF this(1)] obtain out where
    out: "forward l v = Inr out" "length out = layer_size l" by blast
  from out(1) have pn: "predict_neurons (neurons l) v [] = Inr out"
    by (simp add: predict_neurons_collect forward_def)
  from Cons.IH [OF rest, of out] out(2) show ?case
    by (auto simp: pn)
qed

lemma predict_scalar:
  assumes "layers net \<noteq> []" and "scalar_net net"
    and "length vals = layer_size (hd (layers net))"
  shows "\<exists>out. predict net vals = Inr out \<and> length out = layer_size (last (layers net))"
proof -
  from assms(1) obtain l ls where ls: "layers net = l # ls"
    by (cases "layers net") auto
  with assms have sl: "scalar_layer l" and sls: "list_all scalar_layer ls"
    and len: "length vals = layer_size l"
    by (simp_all add: scalar_net_def)
  from forward_first_scalar [OF sl, of vals] obtain out where
    out: "forward_first l vals = Inr out" "length out = layer_size l" by blast
  from predict_first_forward [OF len] out(1)
  have pf: "predict_first (neurons l) vals 0 [] = Inr out" by simp
  from predict_layers_scalar [OF sls, of out] out(2) show ?thesis
    by (auto simp: predict_def ls len pf)
qed

subsection \<open>Networks built by createLayers\<close>

lemma create_neurons_props:
  "create_neurons rnd p k ws f = (ns, p1) \<Longrightarrow>
     length ns = k \<and> list_all (\<lambda>n. activationFunc n = f \<and> length (weights n) = ws) ns"
proof (induction k arbitrary: p ns p1)
  case 0
  then show ?case by simp
next
  case (Suc k)
  have lw: "length (random_weights rnd q m) = m" for q m
    by (induction m arbitrary: q) simp_all
  from Suc.prems Suc.IH show ?case
    by (auto simp: Neuron_create_def lw split: prod.splits)
qed

lemma NeuralLayer_create_props:
  assumes "NeuralLayer_create rnd p sz ws isOut f = (l, p1)"
  shows "layer_size l = sz" and "f \<noteq> SOFTMAX \<Longrightarrow> scalar_layer l"
  using assms create_neurons_props [of rnd p sz ws f]
  by (auto simp: NeuralLayer_create_def layer_size_def scalar_layer_def list_all_iff
           split: prod.splits)

lemma NeuralActivationFunc_recognized:
  "recognized name \<Longrightarrow> \<exists>f. NeuralActivationFunc name = Some f \<and> f \<noteq> SOFTMAX"
  by (auto simp: recognized_def NeuralActivationFunc_def)

lemma createLayers_loop_recognized:
  "list_all (\<lambda>c. recognized (funcName c)) cs \<Longrightarrow> list_all scalar_layer acc \<Longrightarrow>
     \<exists>ls p1. createLayers_loop rnd cfg i cs acc p = Inr (ls, p1) \<and>
             map layer_size ls = map layer_size acc @ map size_cfg cs \<and>
             list_all scalar_layer ls"
proof (induction cs arbitrary: i acc p)
  case Nil
  then show ?case by simp
next
  case (Cons c cs)
  from Cons.prems(1) have "recognized (funcName c)"
    and rest: "list_all (\<lambda>c. recognized (funcName c)) cs" by simp_all
  from NeuralActivationFunc_recognized [OF this(1)] obtain f where
    f: "NeuralActivationFunc (funcName c) = Some f" "f \<noteq> SOFTMAX" by blast
  obtain l p1 where l:
    "(if i = 0 then NeuralLayer_create rnd p (size_cfg c) 1 False f
      else NeuralLayer_create rnd p (size_cfg c) (size_cfg (cfg ! (i - 1)))
             (i = length cfg - 1) f) = (l, p1)"
    by (metis surj_pair)
  then have "layer_size l = size_cfg c" and "scalar_layer l"
    using NeuralLayer_create_props f(2) by (auto split: if_splits)
  with Cons.prems(2) have acc': "list_all scalar_layer (acc @ [l])" by simp
  from Cons.IH [OF rest acc', of "Suc i" p1] \<open>layer_size l = size_cfg c\<close> show ?case
    by (simp add: f(1) l)
qed

lemma createLayers_recognized:
  assumes "layersConfig \<noteq> []" and "list_all (\<lambda>c. recognized (funcName c)) layersConfig"
  shows "\<exists>net p1. createLayers rnd p layersConfig = Inr (net, p1) \<and>
           map layer_size (layers net) = map size_cfg layersConfig \<and> scalar_net net"
  using assms(1) createLayers_loop_recognized [OF assms(2), of "[]" rnd layersConfig 0 p]
  by (auto simp: createLayers_def scalar_net_def)

lemma createLayers_example: "createLayers rnd_example 0 example_config = Inr (built_net, 7)"
  by code_simp

text \<open>
  C6, as stated, fails: \<^verbatim>\<open>createLayers\<close> accepts the name \<^verbatim>\<open>SOFTMAX\<close>, and on the network it
  builds \<open>predict\<close> raises on an input of the right length (the runtime's error, from
  \<^verbatim>\<open>softmax\<close> applied to a number).
\<close>

theorem predict_softmax_raises:
  "(case createLayers rnd_example 0 [\<lparr>size_cfg = 1, funcName = ''SOFTMAX''\<rparr>] of
      Inl e \<Rightarrow> False
    | Inr (net, p1) \<Rightarrow>
        length [Num 1] = layer_size (hd (layers net)) \<and> predict net [Num 1] = Inl TypeError)"
  by (simp add: createLayers_def NeuralActivationFunc_def NeuralLayer_create_def
        Neuron_create_def layer_size_def predict_def activate_def)

text \<open>
  C6, amended: on a network with at least one layer whose neurons carry the scalar
  activation functions only, \<open>predict\<close> raises the shape error if and only if the length of the
  input differs from the size of the first layer, and returns a vector when the lengths
  agree.
\<close>

theorem predict_shape_error_iff:
  assumes "layers net \<noteq> []" and "scalar_net net"
  shows "(predict net vals = Inl ShapeError \<longleftrightarrow> length vals \<noteq> layer_size (hd (layers net))) \<and>
         (length vals = layer_size (hd (layers net)) \<longrightarrow> (\<exists>out. predict net vals = Inr out))"
proof (cases "length vals = layer_size (hd (layers net))")
  case True
  from predict_scalar [OF assms True] show ?thesis using True by auto
next
  case False
  from assms(1) obtain l ls where "layers net = l # ls"
    by (cases "layers net") auto
  with False show ?thesis by (simp add: predict_def)
qed

theorem predict_shape_error_iff_witness:
  "createLayers rnd_example 0 example_config = Inr (built_net, 7) \<and>
   layers built_net \<noteq> [] \<and> scalar_net built_net \<and>
   predict built_net [Num 1] = Inl ShapeError \<and>
   (\<exists>out. predict built_net [Num 1, Num 1] = Inr out)"
  using predict_shape_error_iff [of built_net "[Num 1]"]
    predict_shape_error_iff [of built_net "[Num 1, Num 1]"] createLayers_example
  by (simp add: built_net_def scalar_net_def scalar_layer_def layer_size_def)

text \<open>
  C8: for a non-empty configuration whose activation names are all recognized, and an input
  as long as the first layer, \<^verbatim>\<open>createLayers\<close> builds a network and \<open>predict\<close> returns a vector
  whose length is the size of the last layer.
\<close>

theorem predict_output_length:
  assumes "layersConfig \<noteq> []"
    and "list_all (\<lambda>c. recognized (funcName c)) layersConfig"
    and "length vals = size_cfg (hd layersConfig)"
  shows "\<exists>net p1 out. createLayers rnd p layersConfig = Inr (net, p1) \<and>
           predict net vals = Inr out \<and> length out = size_cfg (last layersConfig)"
proof -
  from createLayers_recognized [OF assms(1,2), of rnd p] obtain net p1 where
    net: "createLayers rnd p layersConfig = Inr (net, p1)"
      "map layer_size (layers net) = map size_cfg layersConfig" "scalar_net net"
    by blast
  from net(2) assms(1) have ne: "layers net \<noteq> []" by auto
  from net(2) have "hd (map layer_size (layers net)) = hd (map size_cfg layersConfig)"
    and "last (map layer_size (layers net)) = last (map size_cfg layersConfig)" by simp_all
  with ne assms(1) have hd: "layer_size (hd (layers net)) = size_cfg (hd layersConfig)"
    and last: "layer_size (last (layers net)) = size_cfg (last layersConfig)"
    by (simp_all add: hd_map last_map)
  from predict_scalar [OF ne net(3), of vals] assms(3) hd last net(1) show ?thesis
    by auto
qed

theorem predict_output_length_witness:
  "DEFAULT_NN_CONFIG \<noteq> [] \<and>
   length [Num 0, Num 0, Num 0, Num 0, Num 0] = size_cfg (hd DEFAULT_NN_CONFIG) \<and>
   (\<exists>net p1 out. createLayers rnd_example 0 DEFAULT_NN_CONFIG = Inr (net, p1) \<and>
      predict net [Num 0, Num 0, Num 0, Num 0, Num 0] = Inr out \<and> length out = 1)"
  using predict_output_length [of DEFAULT_NN_CONFIG "[Num 0, Num 0, Num 0, Num 0, Num 0]" rnd_example 0]
  by (simp add: DEFAULT_NN_CONFIG_def recognized_def)

section \<open>Ranking\<close>

lemma set_sort_insert: "set (sort_insert cmp a bs) = insert a (set bs)"
  by (induction bs) auto

lemma set_array_sort: "set (array_sort cmp xs) = set xs"
  by (induction xs) (simp_all add: set_sort_insert)

lemma length_sort_insert: "length (sort_insert cmp a bs) = Suc (length bs)"
  by (induction bs) simp_all

lemma length_array_sort: "length (array_sort cmp xs) = length xs"
  by (induction xs) (simp_all add: length_sort_insert)

lemma distinct_sort_insert: "a \<notin> set bs \<Longrightarrow> distinct bs \<Longrightarrow> distinct (sort_insert cmp a bs)"
  by (induction bs) (auto simp: set_sort_insert)

lemma distinct_array_sort: "distinct xs \<Longrightarrow> distinct (array_sort cmp xs)"
  by (induction xs) (simp_all add: distinct_sort_insert set_array_sort)

lemma sorted_sort_insert:
  assumes "sorted_wrt (ranks_before store) bs" and "\<forall>b \<in> set bs. a < b"
  shows "sorted_wrt (ranks_before store)
           (sort_insert (\<lambda>a b. distance (store ! b) - distance (store ! a)) a bs)"
  using assms
proof (induction bs)
  case Nil
  show ?case by simp
next
  case (Cons b bs)
  show ?case
  proof (cases "distance (store ! b) - distance (store ! a) > 0")
    case True
    with Cons show ?thesis
      by (auto simp: set_sort_insert ranks_before_def)
  next
    case False
    with Cons.prems show ?thesis
      by (fastforce simp: ranks_before_def)
  qed
qed

lemma sorted_array_sort:
  "sorted_wrt (<) xs \<Longrightarrow>
     sorted_wrt (ranks_before store)
       (array_sort (\<lambda>a b. distance (store ! b) - distance (store ! a)) xs)"
proof (induction xs)
  case Nil
  show ?case by simp
next
  case (Cons a xs)
  then show ?case
    by (simp add: sorted_sort_insert set_array_sort)
qed

lemma ranking_props:
  "distinct (ranking store)" "set (ranking store) = {0..<length store}"
  "length (ranking store) = length store"
  "sorted_wrt (ranks_before store) (ranking store)"
  by (simp_all add: ranking_def distinct_array_sort set_array_sort length_array_sort
        sorted_array_sort)

lemma ranking_hd_best:
  assumes "k < length store"
  shows "distance (store ! k) \<le> distance (store ! hd (ranking store)) \<and>
         (distance (store ! k) = distance (store ! hd (ranking store)) \<longrightarrow> hd (ranking store) \<le> k)"
proof -
  from assms have k: "k \<in> set (ranking store)" by (simp add: ranking_props(2))
  then obtain h t where ht: "ranking store = h # t"
    by (cases "ranking store") auto
  with k have "k = h \<or> k \<in> set t" by auto
  moreover from ranking_props(4) [of store] ht have "\<forall>x \<in> set t. ranks_before store h x"
    by simp
  ultimately show ?thesis
    by (auto simp: ht ranks_before_def)
qed

lemma ranking_Cons:
  assumes "ranking store = best # others"
  shows "best \<notin> set others" "distinct others" "\<forall>k \<in> set others. k < length store"
    "best < length store" "length others = length store - 1"
    "\<And>k. k < length store \<Longrightarrow> k = best \<or> k \<in> set others"
proof -
  from ranking_props(1) [of store] assms show "best \<notin> set others" "distinct others" by simp_all
  from ranking_props(2) [of store] assms have s: "set (best # others) = {0..<length store}" by simp
  then show "k = best \<or> k \<in> set others" if "k < length store" for k
    using that by (metis atLeastLessThan_iff le0 set_ConsD)
  from s show "\<forall>k \<in> set others. k < length store" "best < length store" by auto
  from ranking_props(3) [of store] assms show "length others = length store - 1" by simp
qed

lemma example_game_ranking: "ranking (robots example_game) = [1, 3, 2, 0, 4]"
  by code_simp


text \<open>
  C10: the ranking is a permutation of the robots, ordered by distance descending; two robots
  of equal distance keep their index order; so the first of the ranking has the largest
  distance, and the lowest index among the robots of that distance.
\<close>

theorem ranking_stable_descending:
  "distinct (ranking store) \<and> set (ranking store) = {0..<length store} \<and>
   sorted_wrt (\<lambda>a b. distance (store ! a) \<ge> distance (store ! b) \<and>
                     (distance (store ! a) = distance (store ! b) \<longrightarrow> a < b)) (ranking store) \<and>
   (store \<noteq> [] \<longrightarrow>
      (\<forall>k < length store.
         distance (store ! k) \<le> distance (store ! hd (ranking store)) \<and>
         (distance (store ! k) = distance (store ! hd (ranking store)) \<longrightarrow> hd (ranking store) \<le> k)))"
proof -
  have "sorted_wrt (\<lambda>a b. distance (store ! a) \<ge> distance (store ! b) \<and>
                     (distance (store ! a) = distance (store ! b) \<longrightarrow> a < b)) (ranking store)"
    by (rule sorted_wrt_mono_rel [OF _ ranking_props(4)]) (auto simp: ranks_before_def)
  with ranking_hd_best [of _ store] show ?thesis
    by (simp add: ranking_props)
qed

theorem ranking_stable_descending_witness:
  "ranking (robots example_game) = [1, 3, 2, 0, 4] \<and>
   map (\<lambda>k. distance (robots example_game ! k)) (ranking (robots example_game)) = [7, 7, 5, 3, 1] \<and>
   robots example_game \<noteq> [] \<and> hd (ranking (robots example_game)) = 1 \<and>
   distance (robots example_game ! 3) = distance (robots example_game ! hd (ranking (robots example_game))) \<and>
   hd (ranking (robots example_game)) \<le> 3"
proof -
  have r: "ranking (robots example_game) = [1, 3, 2, 0, 4]"
    by code_simp
  have d: "map (\<lambda>k. distance (robots example_game ! k)) [1, 3, 2, 0, 4] = [7, 7, 5, 3, 1]"
    by (simp add: example_game_def example_robot_def)
  have n: "robots example_game \<noteq> []" "(3::nat) < length (robots example_game)"
    by (simp_all add: example_game_def)
  from ranking_stable_descending [of "robots example_game"] n r d show ?thesis
    by simp
qed

section \<open>Properties of reproduction\<close>






lemma mutate_robots_frame:
  "mutate_robots rnd p py len best i ks store = Inr (store', p') \<Longrightarrow>
     length store' = length store \<and>
     (\<forall>j. j \<notin> set ks \<longrightarrow> store' ! j = store ! j) \<and>
     (\<forall>j < length store. distance (store' ! j) = distance (store ! j)) \<and>
     (\<forall>k \<in> set ks. k < length store \<longrightarrow> isAlive (store' ! k))"
proof (induction ks arbitrary: p i store)
  case Nil
  then show ?case by simp
next
  case (Cons k ks)
  let ?robot = "store ! k"
  from Cons.prems obtain ls1 p1 where
    first: "mutate_layers rnd p i len (layers (nn ?robot)) (layers (nn (store ! best))) = Inr (ls1, p1)"
    by (auto simp: Let_def split: sum.splits)
  define store1 where "store1 = store[k := ?robot\<lparr>position := (10, py - frameHeight ?robot),
                              isAlive := True, nn := (nn ?robot)\<lparr>layers := ls1\<rparr>\<rparr>]"
  from Cons.prems first have
    rest: "mutate_robots rnd p1 py len best (Suc i) ks store1 = Inr (store', p')"
    by (simp add: Let_def store1_def)
  from Cons.IH [OF rest] have ih: "length store' = length store1"
    "\<forall>j. j \<notin> set ks \<longrightarrow> store' ! j = store1 ! j"
    "\<forall>j < length store1. distance (store' ! j) = distance (store1 ! j)"
    "\<forall>k \<in> set ks. k < length store1 \<longrightarrow> isAlive (store' ! k)"
    by simp_all
  have len1: "length store1 = length store" by (simp add: store1_def)
  have d1: "distance (store1 ! j) = distance (store ! j)" if "j < length store" for j
    using that by (cases "j = k") (simp_all add: store1_def)
  have a1: "isAlive (store' ! k)" if "k < length store"
  proof (cases "k \<in> set ks")
    case True
    with ih(4) that len1 show ?thesis by simp
  next
    case False
    with ih(2) have "store' ! k = store1 ! k" by simp
    with that show ?thesis by (simp add: store1_def)
  qed
  have "store' ! j = store ! j" if "j \<notin> set (k # ks)" for j
    using that ih(2) by (simp add: store1_def)
  with ih len1 d1 a1 show ?case by auto
qed


lemma restartGame_unfold:
  "restartGame rnd p game =
     (case ranking (robots game) of
        [] \<Rightarrow> Inl TypeError
      | best # others \<Rightarrow>
          (case mutate_robots rnd (Suc p) (snd (platform_position (platform game)))
                  (length (robots game)) best 1 others (robots game) of
             Inl e \<Rightarrow> Inl e
           | Inr (store, p1) \<Rightarrow>
               Inr (game\<lparr>
                      box := (box game)\<lparr>
                        box_position :=
                          (viewWidth game + 100,
                           if rnd p \<ge> 0.5
                           then snd (platform_position (platform game)) - naturalHeight (box game) * 4
                           else snd (platform_position (platform game)) - naturalHeight (box game)),
                        box_velocity := BOX_INIT_VELOCITY\<rparr>,
                      robots := store[best := (store ! best)\<lparr>
                        position :=
                          (10, snd (platform_position (platform game)) - frameHeight (store ! best)),
                        isAlive := True\<rparr>],
                      pause := False\<rparr>,
                    p1)))"
  unfolding restartGame_def Let_def ..

lemma restartGame_Inr:
  assumes "restartGame rnd p game = Inr (game', p')"
  obtains best others store where
    "ranking (robots game) = best # others"
    "mutate_robots rnd (Suc p) (snd (platform_position (platform game))) (length (robots game))
       best 1 others (robots game) = Inr (store, p')"
    "robots game' = store[best := (store ! best)\<lparr>
        position := (10, snd (platform_position (platform game)) - frameHeight (store ! best)),
        isAlive := True\<rparr>]"
proof -
  let ?py = "snd (platform_position (platform game))"
  from assms obtain best others where r: "ranking (robots game) = best # others"
    by (cases "ranking (robots game)") (simp_all add: restartGame_unfold)
  let ?m = "mutate_robots rnd (Suc p) ?py (length (robots game)) best 1 others (robots game)"
  from assms r obtain store where m: "?m = Inr (store, p')" and
    g: "robots game' = store[best := (store ! best)\<lparr>
        position := (10, ?py - frameHeight (store ! best)), isAlive := True\<rparr>]"
  proof (cases ?m)
    case (Inl e)
    with assms r show ?thesis by (simp add: restartGame_unfold)
  next
    case (Inr sp)
    obtain store p1 where sp: "sp = (store, p1)" by (cases sp)
    from assms r Inr sp have "p1 = p'" and
      "game' = game\<lparr>box := (box game)\<lparr>
                box_position :=
                  (viewWidth game + 100,
                   if rnd p \<ge> 0.5 then ?py - naturalHeight (box game) * 4
                   else ?py - naturalHeight (box game)),
                box_velocity := BOX_INIT_VELOCITY\<rparr>,
                         robots := store[best := (store ! best)\<lparr>
                           position := (10, ?py - frameHeight (store ! best)),
                           isAlive := True\<rparr>],
                         pause := False\<rparr>"
      by (simp_all add: restartGame_unfold)
    then have "robots game' = store[best := (store ! best)\<lparr>
        position := (10, ?py - frameHeight (store ! best)), isAlive := True\<rparr>]"
      by simp
    with Inr sp \<open>p1 = p'\<close> show ?thesis by (intro that) simp_all
  qed
  from r m g show ?thesis by (rule that)
qed




subsection \<open>restartGame returns\<close>

text \<open>
  When there is a robot and all networks have the same topology, \<^verbatim>\<open>restartGame\<close> completes.
\<close>

lemma mutate_neurons_returns:
  "length ns \<le> length bs \<Longrightarrow> \<exists>ns' p'. mutate_neurons rnd p i len ns bs = Inr (ns', p')"
proof (induction ns arbitrary: bs p)
  case Nil
  show ?case by simp
next
  case (Cons neuron ns)
  then obtain bestNeuron bs' where bs: "bs = bestNeuron # bs'" by (cases bs) auto
  obtain neuron' p1 where m: "mutate_neuron rnd p i len neuron bestNeuron = (neuron', p1)"
    by (metis surj_pair)
  from Cons.prems bs have "length ns \<le> length bs'" by simp
  from Cons.IH [OF this, of p1] show ?case
    by (auto simp: bs m)
qed

lemma mutate_layers_returns:
  "map layer_size ls = map layer_size bests \<Longrightarrow>
     \<exists>ls' p'. mutate_layers rnd p i len ls bests = Inr (ls', p')"
proof (induction ls arbitrary: bests p)
  case Nil
  show ?case by simp
next
  case (Cons layer ls)
  then obtain bestLayer bs where bs: "bests = bestLayer # bs" by (cases bests) auto
  with Cons.prems have "layer_size layer = layer_size bestLayer"
    and rest: "map layer_size ls = map layer_size bs"
    by simp_all
  then have sz: "length (neurons layer) \<le> length (neurons bestLayer)"
    by (simp add: layer_size_def)
  from mutate_neurons_returns [OF sz] obtain ns' p1 where
    n: "mutate_neurons rnd p i len (neurons layer) (neurons bestLayer) = Inr (ns', p1)"
    by blast
  from Cons.IH [OF rest, of p1] show ?case
    by (auto simp: bs n)
qed

lemma mutate_robots_returns:
  "\<forall>k \<in> set ks. k < length store \<and> same_shape (nn (store ! k)) (nn (store ! best)) \<Longrightarrow>
   distinct ks \<Longrightarrow> best \<notin> set ks \<Longrightarrow>
     \<exists>store' p'. mutate_robots rnd p py len best i ks store = Inr (store', p')"
proof (induction ks arbitrary: p i store)
  case Nil
  show ?case by simp
next
  case (Cons k ks)
  let ?robot = "store ! k"
  from Cons.prems(1) have "map layer_size (layers (nn ?robot)) = map layer_size (layers (nn (store ! best)))"
    by (simp add: same_shape_def)
  from mutate_layers_returns [OF this] obtain ls1 p1 where
    first: "mutate_layers rnd p i len (layers (nn ?robot)) (layers (nn (store ! best))) = Inr (ls1, p1)"
    by blast
  define store1 where "store1 = store[k := ?robot\<lparr>position := (10, py - frameHeight ?robot),
                              isAlive := True, nn := (nn ?robot)\<lparr>layers := ls1\<rparr>\<rparr>]"
  from Cons.prems have k: "k \<notin> set ks" "k \<noteq> best" and d: "distinct ks" and b: "best \<notin> set ks"
    by auto
  have "k' < length store1 \<and> same_shape (nn (store1 ! k')) (nn (store1 ! best))"
    if "k' \<in> set ks" for k'
  proof -
    from that k(1) have "k' \<noteq> k" by auto
    with k(2) that Cons.prems(1) show ?thesis by (simp add: store1_def)
  qed
  then have "\<forall>k \<in> set ks. k < length store1 \<and> same_shape (nn (store1 ! k)) (nn (store1 ! best))"
    by blast
  from Cons.IH [OF this d b, of p1 "Suc i"] show ?case
    by (simp add: Let_def first store1_def)
qed

lemma restartGame_returns:
  assumes "robots game \<noteq> []"
    and "\<forall>a \<in> set (robots game). \<forall>b \<in> set (robots game). same_shape (nn a) (nn b)"
  shows "\<exists>game' p'. restartGame rnd p game = Inr (game', p')"
proof -
  from assms(1) ranking_props(3) [of "robots game"] obtain best others where
    r: "ranking (robots game) = best # others"
    by (cases "ranking (robots game)") auto
  note rc = ranking_Cons [OF r]
  from rc(3,4) assms(2) have
    "\<forall>k \<in> set others. k < length (robots game) \<and>
        same_shape (nn (robots game ! k)) (nn (robots game ! best))"
    by simp
  from mutate_robots_returns [OF this rc(2) rc(1)] obtain store p' where
    "mutate_robots rnd (Suc p) (snd (platform_position (platform game))) (length (robots game))
       best 1 others (robots game) = Inr (store, p')"
    by blast
  with r show ?thesis by (simp add: restartGame_unfold)
qed

lemma example_game_restarts:
  "\<exists>game' p'. restartGame rnd_example 0 example_game = Inr (game', p')"
proof -
  have "case restartGame rnd_example 0 example_game of Inl e \<Rightarrow> False | Inr r \<Rightarrow> True"
    by code_simp
  then show ?thesis
    by (cases "restartGame rnd_example 0 example_game") auto
qed


subsection \<open>Alive flag and fitness\<close>

text \<open>
  C1, as stated, fails: \<^verbatim>\<open>restartGame\<close> never assigns \<^verbatim>\<open>distance\<close>. On the example game all
  five robots are alive afterwards, and their distances are the ones they had.
\<close>

theorem restartGame_keeps_fitness:
  "(case restartGame rnd_example 0 example_game of
      Inl e \<Rightarrow> False
    | Inr (game', p') \<Rightarrow>
        map isAlive (robots game') = [True, True, True, True, True] \<and>
        map distance (robots game') = [3, 7, 5, 7, 1])"
  by code_simp

text \<open>
  C1, amended: after \<^verbatim>\<open>restartGame\<close> the population has the same size, every robot, the best
  one included, is alive, and every robot has the distance it had before.
\<close>

theorem restartGame_alive_distance_kept:
  assumes "restartGame rnd p game = Inr (game', p')"
  shows "length (robots game') = length (robots game) \<and>
         (\<forall>k < length (robots game).
            isAlive (robots game' ! k) \<and> distance (robots game' ! k) = distance (robots game ! k))"
proof -
  from assms obtain best others store where
    r: "ranking (robots game) = best # others" and
    m: "mutate_robots rnd (Suc p) (snd (platform_position (platform game)))
          (length (robots game)) best 1 others (robots game) = Inr (store, p')" and
    g: "robots game' = store[best := (store ! best)\<lparr>
          position := (10, snd (platform_position (platform game)) - frameHeight (store ! best)),
          isAlive := True\<rparr>]"
    by (rule restartGame_Inr)
  note rc = ranking_Cons [OF r]
  from mutate_robots_frame [OF m] have
    len: "length store = length (robots game)" and
    dist: "\<forall>j < length (robots game). distance (store ! j) = distance (robots game ! j)" and
    alive: "\<forall>k \<in> set others. k < length (robots game) \<longrightarrow> isAlive (store ! k)"
    by simp_all
  have l': "length (robots game') = length (robots game)"
    by (simp add: g len)
  have "isAlive (robots game' ! k) \<and> distance (robots game' ! k) = distance (robots game ! k)"
    if k: "k < length (robots game)" for k
  proof (cases "k = best")
    case True
    from rc(4) len have "robots game' ! best = (store ! best)\<lparr>
          position := (10, snd (platform_position (platform game)) - frameHeight (store ! best)),
          isAlive := True\<rparr>"
      by (simp add: g)
    moreover from dist rc(4) have "distance (store ! best) = distance (robots game ! best)"
      by blast
    ultimately show ?thesis using True by simp
  next
    case False
    then have same: "robots game' ! k = store ! k" by (simp add: g)
    from False rc(6) [OF k] have "k \<in> set others" by simp
    with alive k have "isAlive (store ! k)" by blast
    moreover from dist k have "distance (store ! k) = distance (robots game ! k)" by blast
    ultimately show ?thesis by (simp add: same)
  qed
  with l' show ?thesis by blast
qed

theorem restartGame_alive_distance_kept_witness:
  "\<exists>game' p'. restartGame rnd_example 0 example_game = Inr (game', p') \<and>
     length (robots game') = 5 \<and> isAlive (robots game' ! 4) \<and> distance (robots game' ! 4) = 1"
proof -
  from example_game_restarts obtain game' p' where
    r: "restartGame rnd_example 0 example_game = Inr (game', p')" by blast
  from restartGame_alive_distance_kept [OF r]
  have "length (robots game') = 5 \<and> isAlive (robots game' ! 4) \<and> distance (robots game' ! 4) = 1"
    by (simp add: example_game_def example_robot_def)
  with r show ?thesis by blast
qed

subsection \<open>Elitism\<close>

text \<open>
  C2: the robot at the head of the ranking is a robot of the game, no robot had a larger
  distance, and \<^verbatim>\<open>restartGame\<close> leaves its network (every layer, neuron, weight and bias) as
  it was.
\<close>

theorem best_network_unchanged:
  assumes "restartGame rnd p game = Inr (game', p')"
  shows "hd (ranking (robots game)) < length (robots game) \<and>
         (\<forall>k < length (robots game).
            distance (robots game ! k) \<le> distance (robots game ! hd (ranking (robots game)))) \<and>
         nn (robots game' ! hd (ranking (robots game))) =
           nn (robots game ! hd (ranking (robots game)))"
proof -
  from assms obtain best others store where
    r: "ranking (robots game) = best # others" and
    m: "mutate_robots rnd (Suc p) (snd (platform_position (platform game)))
          (length (robots game)) best 1 others (robots game) = Inr (store, p')" and
    g: "robots game' = store[best := (store ! best)\<lparr>
          position := (10, snd (platform_position (platform game)) - frameHeight (store ! best)),
          isAlive := True\<rparr>]"
    by (rule restartGame_Inr)
  note rc = ranking_Cons [OF r]
  from mutate_robots_frame [OF m] rc(1) have
    len: "length store = length (robots game)" and same: "store ! best = robots game ! best"
    by simp_all
  from rc(4) len same have "nn (robots game' ! best) = nn (robots game ! best)"
    by (simp add: g)
  with rc(4) ranking_hd_best [of _ "robots game"] show ?thesis
    by (simp add: r)
qed

theorem best_network_unchanged_witness:
  "\<exists>game' p'. restartGame rnd_example 0 example_game = Inr (game', p') \<and>
     hd (ranking (robots example_game)) = 1 \<and> nn (robots game' ! 1) = example_net 0.2"
proof -
  from example_game_restarts obtain game' p' where
    r: "restartGame rnd_example 0 example_game = Inr (game', p')" by blast
  from best_network_unchanged [OF r]
  have "nn (robots game' ! 1) = nn (robots example_game ! 1)"
    by (simp add: example_game_ranking)
  then have "nn (robots game' ! 1) = example_net 0.2"
    by (simp add: example_game_def example_robot_def)
  with r show ?thesis by (simp add: example_game_ranking)
qed

subsection \<open>The two tiers\<close>



end
